theory Spec2Isabelle
  imports Complex_Main
begin

section \<open>Numbers\<close>

text \<open>
  The TypeScript sources compute on IEEE doubles.  The embedding uses \<open>real\<close> for
  coordinates and weather scalars and \<open>nat\<close> for counters (ids, rows, columns, ages).
  \<open>Math.round\<close> rounds half up: it is \<open>floor (x + 1/2)\<close>.
\<close>

definition Math_round :: "real \<Rightarrow> real" where
  "Math_round x = of_int \<lfloor>x + 1 / 2\<rfloor>"

text \<open>
  Where a statement depends on the rounding of a double operation (the life and the
  brightness of a particle), the exact result of the operation is rounded by \<open>fl\<close>:
  to the nearest double, a tie going to the even significand.  A double with
  \<open>2^e \<le> |x| < 2^(e+1)\<close> is a multiple of \<open>2^(e-52)\<close>; below \<open>2^-1022\<close> the spacing stays
  \<open>2^-1074\<close>.  Overflow is left out: no value rounded here reaches \<open>2^1024\<close>.
\<close>

definition roundEven :: "real \<Rightarrow> int" where
  "roundEven y =
     (let f = \<lfloor>y\<rfloor> in
      if y - of_int f < 1 / 2 then f
      else if 1 / 2 < y - of_int f then f + 1
      else if even f then f else f + 1)"

definition binade :: "real \<Rightarrow> int" where
  "binade x = max \<lfloor>log 2 \<bar>x\<bar>\<rfloor> (- 1022)"

definition ulp :: "real \<Rightarrow> real" where
  "ulp x = 2 powr (of_int (binade x) - 52)"

definition fl :: "real \<Rightarrow> real" where
  "fl x = (if x = 0 then 0 else of_int (roundEven (x / ulp x)) * ulp x)"

text \<open>A real number that is a double.\<close>

definition isDouble :: "real \<Rightarrow> bool" where
  "isDouble x = (fl x = x)"

section \<open>Grid model (MapComponent.generateGrid, GridMapComponent.generateGrid)\<close>

record GridCell =
  cellId :: nat
  lat :: real
  lon :: real
  row :: nat
  col :: nat

definition gridRows :: nat where "gridRows = 18"
definition gridCols :: nat where "gridCols = 36"
definition latStep :: real where "latStep = 10"
definition lonStep :: real where "lonStep = 10"

text \<open>The object pushed by the body of the inner loop, for the current \<open>id\<close>, \<open>row\<close>, \<open>col\<close>.\<close>

definition newCell :: "nat \<Rightarrow> nat \<Rightarrow> nat \<Rightarrow> GridCell" where
  "newCell i r c =
     (let lat0 = 90 - (real r * latStep + latStep / 2);
          lon0 = - 180 + (real c * lonStep + lonStep / 2)
      in \<lparr> cellId = i,
           lat = Math_round (lat0 * 100) / 100,
           lon = Math_round (lon0 * 100) / 100,
           row = r,
           col = c \<rparr>)"

text \<open>The inner loop \<open>for (col = 0; col < gridCols; col++)\<close>, threading \<open>id\<close> and \<open>cells\<close>.\<close>

function colLoop :: "nat \<Rightarrow> nat \<Rightarrow> nat \<Rightarrow> GridCell list \<Rightarrow> nat \<times> GridCell list" where
  "colLoop r c i cells =
     (if c < gridCols then colLoop r (Suc c) (Suc i) (cells @ [newCell i r c])
      else (i, cells))"
  by pat_completeness auto
termination
  by (relation "measure (\<lambda>(r, c, i, cells). gridCols - c)") auto

text \<open>The outer loop \<open>for (row = 0; row < gridRows; row++)\<close>.\<close>

function rowLoop :: "nat \<Rightarrow> nat \<Rightarrow> GridCell list \<Rightarrow> nat \<times> GridCell list" where
  "rowLoop r i cells =
     (if r < gridRows then (case colLoop r 0 i cells of (i', cells') \<Rightarrow> rowLoop (Suc r) i' cells')
      else (i, cells))"
  by pat_completeness auto
termination
  by (relation "measure (\<lambda>(r, i, cells). gridRows - r)") auto

definition generateGrid :: "GridCell list" where
  "generateGrid = snd (rowLoop 0 1 [])"

text \<open>The cells the inner loop appends for row \<open>r\<close> when it starts with id \<open>i\<close>.\<close>

definition rowCells :: "nat \<Rightarrow> nat \<Rightarrow> GridCell list" where
  "rowCells i r = map (\<lambda>k. newCell (i + k) r k) [0..<gridCols]"

section \<open>Selection state machine\<close>

record SelectedCoordinates =
  source :: "GridCell option"
  destination :: "GridCell option"

datatype SelectionMode = Source | Destination

text \<open>
  The signals of the grid-only component; \<open>coordinatesSelected\<close> is the list of values
  emitted on the output so far, oldest first.
\<close>

record GridMapState =
  selectedCoordinates :: SelectedCoordinates
  selectionMode :: SelectionMode
  coordinatesSelected :: "SelectedCoordinates list"

text \<open>The map-embedded component has the same signals and \<open>showingRoute\<close>.\<close>

record MapState = GridMapState +
  showingRoute :: bool

definition noSelection :: SelectedCoordinates where
  "noSelection = \<lparr> source = None, destination = None \<rparr>"

definition GridMap_init :: GridMapState where
  "GridMap_init = \<lparr> selectedCoordinates = noSelection, selectionMode = Source, coordinatesSelected = [] \<rparr>"

definition Map_init :: MapState where
  "Map_init = \<lparr> selectedCoordinates = noSelection, selectionMode = Source, coordinatesSelected = [],
                showingRoute = False \<rparr>"

text \<open>\<open>GridMapComponent.selectCell\<close>: the second click emits and then resets.\<close>

definition GridMap_selectCell :: "GridCell \<Rightarrow> GridMapState \<Rightarrow> GridMapState" where
  "GridMap_selectCell cell s =
     (let mode = selectionMode s; current = selectedCoordinates s in
      if mode = Source then
        s\<lparr> selectedCoordinates := current\<lparr> source := Some cell \<rparr>, selectionMode := Destination \<rparr>
      else
        (let s1 = s\<lparr> selectedCoordinates := \<lparr> source = source current, destination = Some cell \<rparr> \<rparr>;
             s2 = s1\<lparr> coordinatesSelected := coordinatesSelected s1 @ [selectedCoordinates s1] \<rparr>;
             s3 = s2\<lparr> selectionMode := Source \<rparr>
         in s3\<lparr> selectedCoordinates := \<lparr> source = None, destination = None \<rparr> \<rparr>))"

definition GridMap_resetSelection :: "GridMapState \<Rightarrow> GridMapState" where
  "GridMap_resetSelection s =
     s\<lparr> selectedCoordinates := \<lparr> source = None, destination = None \<rparr>, selectionMode := Source \<rparr>"

text \<open>
  \<open>MapComponent.selectCell\<close>: the second click emits and sets \<open>showingRoute\<close>; neither the
  mode nor the selection is written afterwards.  The closing call of
  \<open>updateMapVisualization\<close> redraws Leaflet layers from the signals and writes none of them.
\<close>

definition Map_selectCell :: "GridCell \<Rightarrow> MapState \<Rightarrow> MapState" where
  "Map_selectCell cell s =
     (let mode = selectionMode s; current = selectedCoordinates s in
      if mode = Source then
        s\<lparr> selectedCoordinates := \<lparr> source = Some cell, destination = destination current \<rparr>,
           selectionMode := Destination \<rparr>
      else
        (let s1 = s\<lparr> selectedCoordinates := \<lparr> source = source current, destination = Some cell \<rparr> \<rparr>;
             s2 = s1\<lparr> coordinatesSelected := coordinatesSelected s1 @ [selectedCoordinates s1] \<rparr>
         in s2\<lparr> showingRoute := True \<rparr>))"

text \<open>\<open>MapComponent.resetSelection\<close> (the route layer it also clears is part of the route view below).\<close>

definition Map_resetSelection :: "MapState \<Rightarrow> MapState" where
  "Map_resetSelection s =
     s\<lparr> selectedCoordinates := \<lparr> source = None, destination = None \<rparr>, selectionMode := Source,
        showingRoute := False \<rparr>"

text \<open>A run of clicks on the map-embedded component, first click first.\<close>

fun Map_clicks :: "GridCell list \<Rightarrow> MapState \<Rightarrow> MapState" where
  "Map_clicks [] s = s"
| "Map_clicks (c # cs) s = Map_clicks cs (Map_selectCell c s)"

section \<open>Route overlay test (MapComponent.isCellOnRoute)\<close>

definition isCellOnRoute :: "GridCell \<Rightarrow> GridCell option \<Rightarrow> GridCell option \<Rightarrow> bool" where
  "isCellOnRoute cell src dst =
     (case src of None \<Rightarrow> False
      | Some s \<Rightarrow>
         (case dst of None \<Rightarrow> False
          | Some d \<Rightarrow>
             (let minLat = min (lat s) (lat d);
                  maxLat = max (lat s) (lat d);
                  minLon = min (lon s) (lon d);
                  maxLon = max (lon s) (lon d)
              in lat cell \<ge> minLat \<and> lat cell \<le> maxLat \<and> lon cell \<ge> minLon \<and> lon cell \<le> maxLon)))"

section \<open>Weather provider (WindyWeatherService)\<close>

subsection \<open>JavaScript operators used by the parser\<close>

text \<open>Reading index \<open>i\<close> of an array: \<open>None\<close> stands for \<open>undefined\<close> (index out of range).\<close>

definition js_index :: "'a list \<Rightarrow> nat \<Rightarrow> 'a option" where
  "js_index xs i = (if i < length xs then Some (xs ! i) else None)"

text \<open>Optional chaining \<open>a?.[i]\<close> on a value that may be missing.\<close>

definition js_opt_index :: "'a list option \<Rightarrow> nat \<Rightarrow> 'a option" where
  "js_opt_index a i = (case a of None \<Rightarrow> None | Some xs \<Rightarrow> js_index xs i)"

text \<open>\<open>x || d\<close> on a number that may be missing: \<open>undefined\<close> and \<open>0\<close> are falsy.\<close>

definition js_num_or :: "real option \<Rightarrow> real \<Rightarrow> real" where
  "js_num_or x d = (case x of None \<Rightarrow> d | Some n \<Rightarrow> if n = 0 then d else n)"

text \<open>\<open>a || d\<close> on an array that may be missing: every array is truthy.\<close>

definition js_arr_or :: "'a list option \<Rightarrow> 'a list \<Rightarrow> 'a list" where
  "js_arr_or a d = (case a of None \<Rightarrow> d | Some xs \<Rightarrow> xs)"

text \<open>The remainder \<open>a % b\<close>: the quotient is truncated towards zero.\<close>

definition js_rem :: "real \<Rightarrow> real \<Rightarrow> real" where
  "js_rem a b = a - b * of_int (if a / b \<ge> 0 then \<lfloor>a / b\<rfloor> else \<lceil>a / b\<rceil>)"

text \<open>\<open>Math.atan2(y, x)\<close> on the reals.\<close>

definition Math_atan2 :: "real \<Rightarrow> real \<Rightarrow> real" where
  "Math_atan2 y x =
     (if x > 0 then arctan (y / x)
      else if x < 0 then (if y \<ge> 0 then arctan (y / x) + pi else arctan (y / x) - pi)
      else if y > 0 then pi / 2
      else if y < 0 then - pi / 2
      else 0)"

subsection \<open>Data\<close>

record Wind =
  speed :: real
  direction :: real
  u_comp :: real
  v_comp :: real

record WindyWeatherData =
  wind :: Wind
  temp :: real
  rh :: real
  pressure :: real
  gust :: "real option"
  cape :: "real option"
  visibility :: "real option"

text \<open>
  The API response.  The parser reads every field through \<open>?.\<close> and \<open>||\<close>, so a field
  may be missing (\<open>None\<close>) and the arrays may be shorter than expected.
\<close>

record WindyApiResponse =
  resp_ts :: real
  resp_wind :: "real list list option"
  resp_temp :: "real list list option"
  resp_rh :: "real list list option"
  resp_pressure :: "real list list option"
  resp_gust :: "real list list option"

subsection \<open>parseWindyResponse\<close>

definition parseWindyResponse :: "WindyApiResponse \<Rightarrow> real \<Rightarrow> real \<Rightarrow> WindyWeatherData" where
  "parseWindyResponse response la lo =
     (let windData = js_arr_or (js_opt_index (resp_wind response) 0) [0, 0];
          tempValue = js_num_or (js_opt_index (js_opt_index (resp_temp response) 0) 0) 15;
          rhValue = js_num_or (js_opt_index (js_opt_index (resp_rh response) 0) 0) 50;
          pressureValue = js_num_or (js_opt_index (js_opt_index (resp_pressure response) 0) 0) 101325;
          gustValue = js_num_or (js_opt_index (js_opt_index (resp_gust response) 0) 0) 0;
          uc = js_num_or (js_index windData 0) 0;
          vc = js_num_or (js_index windData 1) 0;
          sp = sqrt (uc * uc + vc * vc);
          dir = js_rem (Math_atan2 uc vc * 180 / pi + 180) 360
      in \<lparr> wind = \<lparr> speed = sp, direction = dir, u_comp = uc, v_comp = vc \<rparr>,
           temp = tempValue,
           rh = rhValue,
           pressure = pressureValue,
           gust = Some gustValue,
           cape = None,
           visibility = None \<rparr>)"

subsection \<open>generateSimulatedWeatherData\<close>

text \<open>
  The simulator calls \<open>Math.random()\<close> six times.  The argument \<open>rnd\<close> gives the value
  of the \<open>k\<close>-th call (from 0), in the order of the source: temperature, wind speed,
  wind direction, humidity, pressure, gust.
\<close>

definition generateSimulatedWeatherData :: "(nat \<Rightarrow> real) \<Rightarrow> real \<Rightarrow> real \<Rightarrow> WindyWeatherData" where
  "generateSimulatedWeatherData rnd la lo =
     (let baseTemp = 20 - \<bar>la\<bar> * 0.5;
          tmp = baseTemp + (sin (lo * 0.1) * 8) + (rnd 0 - 0.5) * 5;
          baseWindSpeed = \<bar>sin (la * pi / 180)\<bar> * 15 + 3;
          windSpeed = baseWindSpeed + (rnd 1 - 0.5) * 5;
          windDirection = js_rem (lo * 2 + la + rnd 2 * 360) 360;
          angleRad = windDirection * pi / 180;
          uc = windSpeed * sin angleRad;
          vc = windSpeed * cos angleRad;
          baseRH = 60 - \<bar>la\<bar> * 0.3;
          rhv = max 30 (min 95 (baseRH + (rnd 3 - 0.5) * 20));
          basePressure = 101325 + (sin (la * pi / 180) * 1000);
          pres = basePressure + (rnd 4 - 0.5) * 500;
          gst = windSpeed * (1.5 + rnd 5 * 0.5)
      in \<lparr> wind = \<lparr> speed = windSpeed, direction = windDirection, u_comp = uc, v_comp = vc \<rparr>,
           temp = Math_round (tmp * 10) / 10,
           rh = Math_round rhv,
           pressure = Math_round pres,
           gust = Some (Math_round (gst * 10) / 10),
           cape = None,
           visibility = None \<rparr>)"

subsection \<open>getWeatherData\<close>

datatype HttpError = HttpErrorResponse nat string

text \<open>
  An observable that delivers one value, or fails with an error, or stays pending: the
  request of \<open>getWeatherData\<close> has no timeout, so it may never complete.
\<close>

datatype 'a observable = Emits 'a | Errors HttpError | Pending

datatype LogEntry = Warn string HttpError

definition rx_of :: "'a \<Rightarrow> 'a observable \<times> LogEntry list" where
  "rx_of a = (Emits a, [])"

definition rx_map :: "('a \<Rightarrow> 'b) \<Rightarrow> 'a observable \<Rightarrow> 'b observable" where
  "rx_map f ob = (case ob of Emits a \<Rightarrow> Emits (f a) | Errors e \<Rightarrow> Errors e | Pending \<Rightarrow> Pending)"

definition rx_catchError ::
  "(HttpError \<Rightarrow> 'a observable \<times> LogEntry list) \<Rightarrow> 'a observable \<Rightarrow> 'a observable \<times> LogEntry list" where
  "rx_catchError h ob =
     (case ob of Emits a \<Rightarrow> (Emits a, []) | Errors e \<Rightarrow> h e | Pending \<Rightarrow> (Pending, []))"

text \<open>
  \<open>apiKey\<close> is the service's private field and \<open>httpGet\<close> the outcome of the request
  \<open>this.http.get(...)\<close>.  The result is the observable handed to the caller and the
  warnings written to the console.
\<close>

definition getWeatherData ::
  "string \<Rightarrow> WindyApiResponse observable \<Rightarrow> (nat \<Rightarrow> real) \<Rightarrow> real \<Rightarrow> real
     \<Rightarrow> WindyWeatherData observable \<times> LogEntry list" where
  "getWeatherData apiKey httpGet rnd la lo =
     (if apiKey = ''YOUR_WINDY_API_KEY'' then rx_of (generateSimulatedWeatherData rnd la lo)
      else
        rx_catchError
          (\<lambda>error. (fst (rx_of (generateSimulatedWeatherData rnd la lo)),
             [Warn ''Failed to fetch from Windy API, using simulated data:'' error]))
          (rx_map (\<lambda>response. parseWindyResponse response la lo) httpGet))"

text \<open>Draws that make every \<open>(Math.random() - 0.5)\<close> term vanish.\<close>

definition midDraws :: "nat \<Rightarrow> real" where
  "midDraws k = 1 / 2"

text \<open>The largest double below 1, drawn every time.\<close>

definition topDraws :: "nat \<Rightarrow> real" where
  "topDraws k = 1 - 1 / 2 ^ 53"

text \<open>Draws with every noise term of the simulator equal to 0.\<close>

definition zeroNoise :: "nat \<Rightarrow> real" where
  "zeroNoise k = (if k = 2 then 0 else if k = 5 then 0 else 1 / 2)"

definition emptyResponse :: WindyApiResponse where
  "emptyResponse = \<lparr> resp_ts = 0, resp_wind = None, resp_temp = None, resp_rh = None,
       resp_pressure = None, resp_gust = None \<rparr>"

subsection \<open>getWindSpeedColor\<close>

definition getWindSpeedColor :: "real \<Rightarrow> string" where
  "getWindSpeedColor speedMs =
     (if speedMs < 2 then ''#0066CC''
      else if speedMs < 5 then ''#00CCFF''
      else if speedMs < 10 then ''#00FF00''
      else if speedMs < 15 then ''#FFFF00''
      else if speedMs < 20 then ''#FF8800''
      else if speedMs < 25 then ''#FF4400''
      else ''#FF0000'')"

text \<open>The colours in the order of the branches, calm to storm, and a colour's place in a scale.\<close>

definition windSpeedScale :: "string list" where
  "windSpeedScale = [''#0066CC'', ''#00CCFF'', ''#00FF00'', ''#FFFF00'', ''#FF8800'', ''#FF4400'', ''#FF0000'']"

fun bucketIndex :: "'a list \<Rightarrow> 'a \<Rightarrow> nat" where
  "bucketIndex [] c = 0"
| "bucketIndex (b # bs) c = (if b = c then 0 else Suc (bucketIndex bs c))"

section \<open>Particle engine\<close>

record WindParticle =
  pos_x :: real
  pos_y :: real
  vx :: real
  vy :: real
  age :: nat
  life :: real
  brightness :: real

definition particleCount :: nat where "particleCount = 2500"

text \<open>
  The particle pushed by the \<open>i\<close>-th round of the seeding loop.  Each round calls
  \<open>Math.random()\<close> seven times; \<open>rnd k\<close> is the value of the \<open>k\<close>-th call of the whole
  loop.  \<open>life\<close> and \<open>brightness\<close> are the doubles the code computes: the product is
  rounded, then the sum.  Positions and velocities are kept exact; no statement below is
  about them.
\<close>

definition seedParticle :: "WindyWeatherData \<Rightarrow> (nat \<Rightarrow> real) \<Rightarrow> nat \<Rightarrow> WindParticle" where
  "seedParticle weatherData rnd i =
     (let windSpeedMs = speed (wind weatherData);
          windDirectionDeg = direction (wind weatherData);
          windAngleRad = windDirectionDeg * pi / 180;
          speedVariation = 0.8 + rnd (7 * i) * 0.4;
          vx0 = cos windAngleRad * (windSpeedMs / 4) * speedVariation + (rnd (7 * i + 1) - 0.5) * 1;
          vy0 = sin windAngleRad * (windSpeedMs / 4) * speedVariation + (rnd (7 * i + 2) - 0.5) * 1
      in \<lparr> pos_x = rnd (7 * i + 3) * 1000,
           pos_y = rnd (7 * i + 4) * 600,
           vx = vx0,
           vy = vy0,
           age = 0,
           life = fl (fl (rnd (7 * i + 5) * 150) + 100),
           brightness = fl (fl (rnd (7 * i + 6) * 0.5) + 0.5) \<rparr>)"

function seedLoop :: "WindyWeatherData \<Rightarrow> (nat \<Rightarrow> real) \<Rightarrow> nat \<Rightarrow> WindParticle list \<Rightarrow> WindParticle list" where
  "seedLoop weatherData rnd i ps =
     (if i < particleCount then seedLoop weatherData rnd (Suc i) (ps @ [seedParticle weatherData rnd i])
      else ps)"
  by pat_completeness auto
termination
  by (relation "measure (\<lambda>(weatherData, rnd, i, ps). particleCount - i)") auto

text \<open>
  \<open>initializeParticleSystem\<close>: the pool is emptied; without a map nothing else happens;
  otherwise the subscriber seeds the pool from the weather sample it receives.
\<close>

definition initializeParticleSystem :: "bool \<Rightarrow> WindyWeatherData \<Rightarrow> (nat \<Rightarrow> real) \<Rightarrow> WindParticle list" where
  "initializeParticleSystem hasMap0 weatherData rnd =
     (if hasMap0 then seedLoop weatherData rnd 0 [] else [])"

text \<open>
  The body of \<open>particleSystem.forEach\<close> in one animation tick, for a canvas of width \<open>w\<close>
  and height \<open>h\<close>.  \<open>k\<close> counts the calls of \<open>Math.random()\<close> made so far in this tick and
  is returned updated.  The stroke drawn between the wrap and the respawn check only writes
  to the canvas.  \<open>age\<close> counts in whole numbers and is exact; the \<open>life\<close> and
  \<open>brightness\<close> of a respawn are rounded as at seeding.
\<close>

definition updateParticle ::
  "real \<Rightarrow> real \<Rightarrow> (nat \<Rightarrow> real) \<Rightarrow> nat \<Rightarrow> WindParticle \<Rightarrow> WindParticle \<times> nat" where
  "updateParticle w h rnd k p =
     (let p1 = p\<lparr> pos_x := pos_x p + vx p \<rparr>;
          p2 = p1\<lparr> pos_y := pos_y p1 + vy p1 \<rparr>;
          p3 = p2\<lparr> age := age p2 + 1 \<rparr>;
          gustFactor = sin (real (age p3) * 0.02) * 0.5;
          p4 = p3\<lparr> vx := vx p3 + ((rnd k - 0.5) * 0.4 + gustFactor * 0.2) \<rparr>;
          p5 = p4\<lparr> vy := vy p4 + ((rnd (k + 1) - 0.5) * 0.4 + gustFactor * 0.2) \<rparr>;
          p6 = (if pos_x p5 < - 50 then p5\<lparr> pos_x := w + 50 \<rparr> else p5);
          p7 = (if pos_x p6 > w + 50 then p6\<lparr> pos_x := - 50 \<rparr> else p6);
          p8 = (if pos_y p7 < - 50 then p7\<lparr> pos_y := h + 50 \<rparr> else p7);
          p9 = (if pos_y p8 > h + 50 then p8\<lparr> pos_y := - 50 \<rparr> else p8)
      in if real (age p9) > life p9 then
           (p9\<lparr> pos_x := rnd (k + 2) * w,
                pos_y := rnd (k + 3) * h,
                age := 0,
                life := fl (fl (rnd (k + 4) * 150) + 100),
                brightness := fl (fl (rnd (k + 5) * 0.5) + 0.5) \<rparr>, k + 6)
         else (p9, k + 2))"

fun particleLoop ::
  "real \<Rightarrow> real \<Rightarrow> (nat \<Rightarrow> real) \<Rightarrow> nat \<Rightarrow> WindParticle list \<Rightarrow> WindParticle list \<times> nat" where
  "particleLoop w h rnd k [] = ([], k)"
| "particleLoop w h rnd k (p # ps) =
     (case updateParticle w h rnd k p of
        (p', k') \<Rightarrow> (case particleLoop w h rnd k' ps of (ps', k'') \<Rightarrow> (p' # ps', k'')))"

text \<open>
  Successive animation ticks.  Each tick has its own sequence of \<open>Math.random()\<close> values,
  of which the particle loop takes the first ones.
\<close>

fun animateTicks :: "real \<Rightarrow> real \<Rightarrow> (nat \<Rightarrow> real) list \<Rightarrow> WindParticle list \<Rightarrow> WindParticle list" where
  "animateTicks w h [] ps = ps"
| "animateTicks w h (rnd # rnds) ps = animateTicks w h rnds (fst (particleLoop w h rnd 0 ps))"

text \<open>\<open>Math.random()\<close> returns a double in \<open>[0, 1)\<close>.\<close>

definition unitDraws :: "(nat \<Rightarrow> real) \<Rightarrow> bool" where
  "unitDraws rnd = (\<forall>k. 0 \<le> rnd k \<and> rnd k < 1 \<and> isDouble (rnd k))"

text \<open>The invariant of a particle after the respawn check.\<close>

definition particleOk :: "WindParticle \<Rightarrow> bool" where
  "particleOk p = (0 \<le> real (age p) \<and> real (age p) \<le> life p)"

text \<open>The ranges of the \<open>life\<close> and \<open>brightness\<close> drawn at seeding and at respawn.\<close>

definition freshLife :: "WindParticle \<Rightarrow> bool" where
  "freshLife p = (100 \<le> life p \<and> life p < 250 \<and> 1 / 2 \<le> brightness p \<and> brightness p \<le> 1)"

section \<open>Route renderer (MapComponent.displayRoute)\<close>

record Waypoint =
  wp_lat :: real
  wp_lon :: real

record RoutingData =
  resultCode :: int
  resultText :: string
  totalDistance :: real
  secaDistance :: real
  waypoints :: "Waypoint list option"
  metadata :: "string option"
  arrived_flag :: bool

type_synonym LatLng = "real \<times> real"

text \<open>What is added to the route layer group: circle markers (position, radius, fill colour) and polylines.\<close>

datatype Layer = CircleMarker LatLng nat string | Polyline "LatLng list"

datatype JsError = TypeError

text \<open>
  The component's view of the map: whether \<open>map\<close> and \<open>routeLayerGroup\<close> are set, the
  layers of the route group, and the calls of \<open>map.fitBounds\<close> made so far.
\<close>

record RouteView =
  hasMap :: bool
  hasRouteLayerGroup :: bool
  routeLayers :: "Layer list"
  fitBoundsCalls :: "(LatLng \<times> LatLng) list"

text \<open>A marker at \<open>coordinates[i]\<close>; Leaflet fails on an undefined position.\<close>

definition markerAt :: "LatLng list \<Rightarrow> nat \<Rightarrow> nat \<Rightarrow> string \<Rightarrow> JsError + Layer" where
  "markerAt coordinates i radius fillColor =
     (case js_index coordinates i of None \<Rightarrow> Inl TypeError
      | Some c \<Rightarrow> Inr (CircleMarker c radius fillColor))"

text \<open>The loop \<open>for (i = 1; i < coordinates.length - 1; i += 5)\<close> of intermediate markers.\<close>

function intermediateMarkers :: "LatLng list \<Rightarrow> nat \<Rightarrow> Layer list \<Rightarrow> JsError + Layer list" where
  "intermediateMarkers coordinates i layers =
     (if int i < int (length coordinates) - 1 then
        (case markerAt coordinates i 4 ''#FFD700'' of
           Inl e \<Rightarrow> Inl e
         | Inr m \<Rightarrow> intermediateMarkers coordinates (i + 5) (layers @ [m]))
      else Inr layers)"
  by pat_completeness auto
termination
  by (relation "measure (\<lambda>(coordinates, i, layers). length coordinates - i)") auto

text \<open>The callback of \<open>routingDataArray.forEach\<close>; \<open>n\<close> is \<open>routingDataArray.length\<close>.\<close>

definition drawSegment :: "nat \<Rightarrow> RoutingData \<Rightarrow> nat \<Rightarrow> Layer list \<Rightarrow> JsError + Layer list" where
  "drawSegment n routingData segmentIndex layers =
     (case waypoints routingData of
        None \<Rightarrow> Inr layers
      | Some wps \<Rightarrow>
          if length wps = 0 then Inr layers
          else
            (let coordinates = map (\<lambda>wp. (wp_lat wp, wp_lon wp)) wps;
                 r1 = (if segmentIndex = 0 then
                         (case markerAt coordinates 0 10 ''#667eea'' of
                            Inl e \<Rightarrow> Inl e | Inr m \<Rightarrow> Inr (layers @ [m]))
                       else Inr layers)
             in case r1 of
                  Inl e \<Rightarrow> Inl e
                | Inr l1 \<Rightarrow>
                   (let r2 = (if int segmentIndex = int n - 1 then
                                (case markerAt coordinates (length coordinates - 1) 10 ''#764ba2'' of
                                   Inl e \<Rightarrow> Inl e | Inr m \<Rightarrow> Inr (l1 @ [m]))
                              else Inr l1)
                    in case r2 of
                         Inl e \<Rightarrow> Inl e
                       | Inr l2 \<Rightarrow> intermediateMarkers coordinates 1 (l2 @ [Polyline coordinates]))))"

fun forEachSegment :: "nat \<Rightarrow> RoutingData list \<Rightarrow> nat \<Rightarrow> Layer list \<Rightarrow> JsError + Layer list" where
  "forEachSegment n [] segmentIndex layers = Inr layers"
| "forEachSegment n (routingData # rest) segmentIndex layers =
     (case drawSegment n routingData segmentIndex layers of
        Inl e \<Rightarrow> Inl e
      | Inr layers' \<Rightarrow> forEachSegment n rest (Suc segmentIndex) layers')"

text \<open>
  Leaflet's \<open>FeatureGroup.getBounds\<close>: the bounding box (south-west and north-east corner)
  of the points of all layers; \<open>None\<close> is the invalid bounds of a group without points.
\<close>

fun layerPoints :: "Layer \<Rightarrow> LatLng list" where
  "layerPoints (CircleMarker c radius fillColor) = [c]"
| "layerPoints (Polyline cs) = cs"

definition getBounds :: "Layer list \<Rightarrow> (LatLng \<times> LatLng) option" where
  "getBounds layers =
     (case concat (map layerPoints layers) of
        [] \<Rightarrow> None
      | c # cs \<Rightarrow>
          Some ((fold min (map fst cs) (fst c), fold min (map snd cs) (snd c)),
                (fold max (map fst cs) (fst c), fold max (map snd cs) (snd c))))"

definition displayRoute :: "RoutingData list option \<Rightarrow> RouteView \<Rightarrow> JsError + RouteView" where
  "displayRoute routingDataArray s =
     (if \<not> hasMap s \<or> \<not> hasRouteLayerGroup s then Inr s
      else
        (let s1 = s\<lparr> routeLayers := [] \<rparr> in
         case routingDataArray of
           None \<Rightarrow> Inr s1
         | Some segments \<Rightarrow>
             if length segments = 0 then Inr s1
             else
               (case forEachSegment (length segments) segments 0 (routeLayers s1) of
                  Inl e \<Rightarrow> Inl e
                | Inr layers \<Rightarrow>
                   (case getBounds layers of
                      None \<Rightarrow> Inr (s1\<lparr> routeLayers := layers \<rparr>)
                    | Some b \<Rightarrow>
                        Inr (s1\<lparr> routeLayers := layers, fitBoundsCalls := fitBoundsCalls s1 @ [b] \<rparr>)))))"

text \<open>A route is empty when it is missing, has no segment, or every segment's waypoints are missing or empty.\<close>

definition noWaypoints :: "RoutingData \<Rightarrow> bool" where
  "noWaypoints routingData = (case waypoints routingData of None \<Rightarrow> True | Some wps \<Rightarrow> wps = [])"

definition emptyRoute :: "RoutingData list option \<Rightarrow> bool" where
  "emptyRoute routingDataArray =
     (case routingDataArray of None \<Rightarrow> True | Some segments \<Rightarrow> list_all noWaypoints segments)"

section \<open>Sample inputs\<close>

text \<open>Two segments without waypoints, a view that already shows a route, and a particle at the end of its life.\<close>

definition emptySegment :: RoutingData where
  "emptySegment = \<lparr> resultCode = 0, resultText = ''ok'', totalDistance = 0, secaDistance = 0,
       waypoints = Some [], metadata = None, arrived_flag = False \<rparr>"

definition missingSegment :: RoutingData where
  "missingSegment = \<lparr> resultCode = 0, resultText = ''ok'', totalDistance = 0, secaDistance = 0,
       waypoints = None, metadata = None, arrived_flag = False \<rparr>"

definition viewWithRoute :: RouteView where
  "viewWithRoute = \<lparr> hasMap = True, hasRouteLayerGroup = True,
       routeLayers = [Polyline [(85, - 175), (- 85, 175)]], fitBoundsCalls = [] \<rparr>"

definition oldParticle :: WindParticle where
  "oldParticle = \<lparr> pos_x = 0, pos_y = 0, vx = 1, vy = 1, age = 100, life = 100, brightness = 1 / 2 \<rparr>"

section \<open>Rounding to doubles\<close>

lemma ulp_pos: "0 < ulp x"
  by (simp add: ulp_def)

lemma roundEven_ge: "of_int n \<le> y \<Longrightarrow> n \<le> roundEven y"
proof -
  assume "of_int n \<le> y"
  then have "n \<le> \<lfloor>y\<rfloor>" by (simp add: le_floor_iff)
  then show ?thesis by (simp add: roundEven_def Let_def)
qed

lemma roundEven_le: "y \<le> of_int n \<Longrightarrow> roundEven y \<le> n"
proof -
  assume a: "y \<le> of_int n"
  show ?thesis
  proof (cases "y = of_int n")
    case True
    then show ?thesis by (simp add: roundEven_def Let_def)
  next
    case False
    with a have "y < of_int n" by simp
    then have "\<lfloor>y\<rfloor> < n" by (simp add: floor_less_iff)
    then show ?thesis by (simp add: roundEven_def Let_def)
  qed
qed

lemma roundEven_below_half: "y < of_int n - 1 / 2 \<Longrightarrow> roundEven y \<le> n - 1"
proof -
  assume a: "y < of_int n - 1 / 2"
  then have "y < of_int n" by simp
  then have f: "\<lfloor>y\<rfloor> \<le> n - 1" by (simp add: floor_less_iff)
  show ?thesis
  proof (cases "\<lfloor>y\<rfloor> = n - 1")
    case True
    then have "y - of_int \<lfloor>y\<rfloor> < 1 / 2" using a by simp
    then show ?thesis using True by (simp add: roundEven_def Let_def)
  next
    case False
    with f have "\<lfloor>y\<rfloor> + 1 \<le> n - 1" by simp
    then show ?thesis by (simp add: roundEven_def Let_def)
  qed
qed

lemma roundEven_of_int: "roundEven (of_int n) = n"
  by (simp add: roundEven_def)

lemma binade_le:
  assumes "x \<noteq> 0" and "\<bar>x\<bar> < 2 powr (of_int k + 1)" and "- 1022 \<le> k"
  shows "binade x \<le> k"
proof -
  have p: "0 < \<bar>x\<bar>" using assms(1) by simp
  have "log 2 \<bar>x\<bar> < of_int k + 1"
    using assms(2) p by (simp add: log_less_iff)
  then have "\<lfloor>log 2 \<bar>x\<bar>\<rfloor> \<le> k"
    by linarith
  then show ?thesis using assms(3) by (simp add: binade_def)
qed

lemma binade_eq:
  assumes "2 powr (of_int k) \<le> \<bar>x\<bar>" and "\<bar>x\<bar> < 2 powr (of_int k + 1)" and "- 1022 \<le> k"
  shows "binade x = k"
proof -
  have p: "0 < \<bar>x\<bar>" using assms(1) by (smt (verit) powr_gt_zero)
  have "\<lfloor>log 2 \<bar>x\<bar>\<rfloor> = k"
    using assms(1,2) p by (simp add: floor_log_eq_powr_iff)
  then show ?thesis using assms(3) by (simp add: binade_def)
qed

lemma ulp_grid:
  assumes "binade x \<le> j + 52"
  shows "(2::real) powr (of_int j) = of_int (2 ^ nat (j + 52 - binade x)) * ulp x"
proof -
  have "(2::real) powr (of_int j) = 2 powr (of_int (j + 52 - binade x) + (of_int (binade x) - 52))"
    by simp
  also have "\<dots> = 2 powr (of_int (j + 52 - binade x)) * 2 powr (of_int (binade x) - 52)"
    by (rule powr_add)
  also have "(2::real) powr (of_int (j + 52 - binade x)) = 2 ^ nat (j + 52 - binade x)"
    using assms powr_real_of_int [of 2 "j + 52 - binade x"] by (simp del: of_int_diff of_int_add)
  finally show ?thesis by (simp add: ulp_def)
qed

lemma fl_le_grid:
  assumes "x \<noteq> 0" and "binade x \<le> j + 52" and "x \<le> of_int a * 2 powr (of_int j)"
  shows "fl x \<le> of_int a * 2 powr (of_int j)"
proof -
  define n :: int where "n = 2 ^ nat (j + 52 - binade x)"
  have g: "2 powr (of_int j) = of_int n * ulp x"
    unfolding n_def by (rule ulp_grid [OF assms(2)])
  have "x / ulp x \<le> of_int (a * n)"
    using assms(3) ulp_pos [of x] by (simp add: g field_simps)
  then have "roundEven (x / ulp x) \<le> a * n" by (rule roundEven_le)
  then have "of_int (roundEven (x / ulp x)) * ulp x \<le> of_int (a * n) * ulp x"
    using ulp_pos [of x] by (simp only: mult_le_cancel_right_pos of_int_le_iff)
  then show ?thesis using assms(1) by (simp add: fl_def g mult.assoc)
qed

lemma fl_ge_grid:
  assumes "x \<noteq> 0" and "binade x \<le> j + 52" and "of_int a * 2 powr (of_int j) \<le> x"
  shows "of_int a * 2 powr (of_int j) \<le> fl x"
proof -
  define n :: int where "n = 2 ^ nat (j + 52 - binade x)"
  have g: "2 powr (of_int j) = of_int n * ulp x"
    unfolding n_def by (rule ulp_grid [OF assms(2)])
  have "of_int (a * n) \<le> x / ulp x"
    using assms(3) ulp_pos [of x] by (simp add: g field_simps)
  then have "a * n \<le> roundEven (x / ulp x)" by (rule roundEven_ge)
  then have "of_int (a * n) * ulp x \<le> of_int (roundEven (x / ulp x)) * ulp x"
    using ulp_pos [of x] by (simp only: mult_le_cancel_right_pos of_int_le_iff)
  then show ?thesis using assms(1) by (simp add: fl_def g mult.assoc)
qed

lemma fl_nonneg: "0 \<le> x \<Longrightarrow> 0 \<le> fl x"
proof -
  assume "0 \<le> x"
  then have "of_int 0 \<le> x / ulp x" using ulp_pos [of x] by simp
  then have "0 \<le> roundEven (x / ulp x)" by (rule roundEven_ge)
  then show ?thesis using ulp_pos [of x] by (simp add: fl_def)
qed

lemma fl_le_pow2:
  assumes "x \<noteq> 0" and "binade x \<le> j + 52" and "x \<le> 2 powr (of_int j)"
  shows "fl x \<le> 2 powr (of_int j)"
  using fl_le_grid [OF assms(1,2), of 1] assms(3) by simp

lemma fl_ge_pow2:
  assumes "x \<noteq> 0" and "binade x \<le> j + 52" and "2 powr (of_int j) \<le> x"
  shows "2 powr (of_int j) \<le> fl x"
  using fl_ge_grid [OF assms(1,2), of 1] assms(3) by simp

lemma fl_half_sum_bounds:
  assumes "0 \<le> r" and "r < 1"
  shows "1 / 2 \<le> fl (fl (r * 0.5) + 0.5) \<and> fl (fl (r * 0.5) + 0.5) \<le> 1"
proof -
  define t where "t = fl (r * 0.5)"
  have t0: "0 \<le> t" unfolding t_def using assms(1) by (intro fl_nonneg) simp
  have t1: "t \<le> 1 / 2"
  proof (cases "r = 0")
    case True
    then show ?thesis by (simp add: t_def fl_def)
  next
    case False
    then have nz: "r * 0.5 \<noteq> 0" by simp
    have b: "binade (r * 0.5) \<le> - 1 + 52"
      using binade_le [OF nz, of "- 1"] assms by simp
    have "fl (r * 0.5) \<le> 2 powr (of_int (- 1))"
      using assms by (intro fl_le_pow2 [OF nz b]) (simp add: powr_neg_numeral powr_minus)
    then show ?thesis by (simp add: t_def powr_minus)
  qed
  have nz: "t + 0.5 \<noteq> 0" using t0 by simp
  have b: "binade (t + 0.5) \<le> 0"
    using binade_le [OF nz, of 0] t0 t1 by simp
  have lo: "2 powr (of_int (- 1)) \<le> fl (t + 0.5)"
    using t0 b by (intro fl_ge_pow2 [OF nz]) (simp_all add: powr_minus)
  have hi: "fl (t + 0.5) \<le> 2 powr (of_int 0)"
    using t1 b by (intro fl_le_pow2 [OF nz]) simp_all
  show ?thesis using lo hi by (simp add: t_def powr_minus)
qed

lemma isDouble_below_one:
  assumes "isDouble r" and "0 \<le> r" and "r < 1"
  shows "r \<le> 1 - 1 / 2 ^ 53"
proof (cases "r < 1 / 2")
  case True
  then show ?thesis by simp
next
  case False
  then have nz: "r \<noteq> 0" by simp
  have "binade r = - 1"
    using False assms by (intro binade_eq) (simp_all add: powr_minus)
  then have u: "ulp r = 1 / 2 ^ 53"
    by (simp add: ulp_def powr_neg_numeral)
  define m where "m = roundEven (r / ulp r)"
  have r: "r = of_int m / 2 ^ 53"
    using assms(1) nz by (simp add: isDouble_def fl_def m_def u)
  with assms(3) have "of_int m < (2 ^ 53 :: real)" by (simp add: field_simps)
  then have "of_int m < (of_int (2 ^ 53) :: real)" by simp
  then have "m < 2 ^ 53" by (simp only: of_int_less_iff)
  then have "m \<le> 2 ^ 53 - 1" by simp
  then have "(of_int m :: real) \<le> of_int (2 ^ 53 - 1)" by (simp only: of_int_le_iff)
  then show ?thesis unfolding r by (simp add: field_simps)
qed

lemma fl_life_bounds:
  assumes "0 \<le> r" and "r \<le> 1 - 1 / 2 ^ 53"
  shows "100 \<le> fl (fl (r * 150) + 100) \<and> fl (fl (r * 150) + 100) < 250"
proof -
  define m where "m = fl (r * 150)"
  have m0: "0 \<le> m" unfolding m_def using assms(1) by (intro fl_nonneg) simp
  have m1: "m \<le> 150 - 1 / 2 ^ 45"
  proof (cases "r * 150 < 128")
    case True
    show ?thesis
    proof (cases "r = 0")
      case True
      then show ?thesis by (simp add: m_def fl_def)
    next
      case False
      then have nz: "r * 150 \<noteq> 0" by simp
      have b: "binade (r * 150) \<le> 7 + 52"
        using binade_le [OF nz, of 7] assms True by simp
      have "fl (r * 150) \<le> 2 powr (of_int 7)"
        using True by (intro fl_le_pow2 [OF nz b]) simp
      then show ?thesis by (simp add: m_def)
    qed
  next
    case False
    then have nz: "r * 150 \<noteq> 0" by simp
    have "binade (r * 150) = 7"
      using False assms by (intro binade_eq) simp_all
    then have u: "ulp (r * 150) = 1 / 2 ^ 45"
      by (simp add: ulp_def powr_neg_numeral)
    have "r * 150 / ulp (r * 150) < of_int (150 * 2 ^ 45) - 1 / 2"
      using assms(2) by (simp add: u)
    then have "roundEven (r * 150 / ulp (r * 150)) \<le> 150 * 2 ^ 45 - 1"
      by (rule roundEven_below_half)
    then have "(of_int (roundEven (r * 150 / ulp (r * 150))) :: real) \<le> of_int (150 * 2 ^ 45 - 1)"
      by (simp only: of_int_le_iff)
    then show ?thesis using nz by (simp add: m_def fl_def u field_simps)
  qed
  have nz: "m + 100 \<noteq> 0" using m0 by simp
  have b: "binade (m + 100) \<le> 7"
    using binade_le [OF nz, of 7] m0 m1 by simp
  have lo: "of_int 25 * 2 powr (of_int 2) \<le> fl (m + 100)"
    using m0 b by (intro fl_ge_grid [OF nz]) simp_all
  have hi: "fl (m + 100) \<le> of_int (250 * 2 ^ 45 - 1) * 2 powr (of_int (- 45))"
    using m1 b by (intro fl_le_grid [OF nz]) (simp_all add: powr_neg_numeral field_simps)
  show ?thesis using lo hi by (simp add: m_def powr_neg_numeral field_simps)
qed

lemma isDouble_half: "isDouble (1 / 2)"
proof -
  have "binade (1 / 2) = - 1"
    by (intro binade_eq) (simp_all add: powr_minus)
  then have u: "ulp (1 / 2) = 1 / 2 ^ 53"
    by (simp add: ulp_def powr_neg_numeral)
  have "(1 / 2 :: real) / (1 / 2 ^ 53) = of_int (2 ^ 52)" by simp
  then show ?thesis
    unfolding isDouble_def fl_def u by (simp only: roundEven_of_int) simp
qed

lemma isDouble_top: "isDouble (1 - 1 / 2 ^ 53)"
proof -
  have "binade (1 - 1 / 2 ^ 53) = - 1"
    by (intro binade_eq) (simp_all add: powr_minus)
  then have u: "ulp (1 - 1 / 2 ^ 53) = 1 / 2 ^ 53"
    by (simp add: ulp_def powr_neg_numeral)
  have "(1 - 1 / 2 ^ 53 :: real) / (1 / 2 ^ 53) = of_int (2 ^ 53 - 1)" by simp
  then show ?thesis
    unfolding isDouble_def fl_def u by (simp only: roundEven_of_int) simp
qed

lemma fl_top_brightness: "fl (fl ((1 - 1 / 2 ^ 53) * 0.5) + 0.5) = 1"
proof -
  have b1: "binade ((1 - 1 / 2 ^ 53) * 0.5) = - 2"
    by (intro binade_eq) (simp_all add: powr_neg_numeral)
  then have u1: "ulp ((1 - 1 / 2 ^ 53) * 0.5) = 1 / 2 ^ 54"
    by (simp add: ulp_def powr_neg_numeral)
  have q1: "((1 - 1 / 2 ^ 53) * 0.5 :: real) / (1 / 2 ^ 54) = of_int (2 ^ 53 - 1)" by simp
  have t: "fl ((1 - 1 / 2 ^ 53) * 0.5) = 1 / 2 - 1 / 2 ^ 54"
    unfolding fl_def u1 q1 roundEven_of_int by simp
  have b2: "binade (1 / 2 - 1 / 2 ^ 54 + 0.5) = - 1"
    by (intro binade_eq) (simp_all add: powr_minus)
  then have u2: "ulp (1 / 2 - 1 / 2 ^ 54 + 0.5) = 1 / 2 ^ 53"
    by (simp add: ulp_def powr_neg_numeral)
  have q2: "(1 / 2 - 1 / 2 ^ 54 + 0.5 :: real) / (1 / 2 ^ 53) = of_int (2 ^ 53 - 1) + 1 / 2" by simp
  have fl2: "\<lfloor>of_int (2 ^ 53 - 1) + (1 / 2 :: real)\<rfloor> = 2 ^ 53 - 1" by linarith
  have r: "roundEven (of_int (2 ^ 53 - 1) + 1 / 2) = 2 ^ 53"
    unfolding roundEven_def Let_def fl2 by simp
  have s: "fl (1 / 2 - 1 / 2 ^ 54 + 0.5) = 1"
    unfolding fl_def u2 q2 r by simp
  show ?thesis
    by (simp only: t s)
qed

section \<open>The grid\<close>

lemma newCell_eq:
  "newCell i r c = \<lparr> cellId = i, lat = 85 - 10 * real r, lon = - 175 + 10 * real c, row = r, col = c \<rparr>"
proof -
  have a: "(90 - (real r * 10 + 10 / 2)) * 100 + 1 / 2 = of_int (8500 - 1000 * int r) + 1 / 2"
    by simp
  have b: "(- 180 + (real c * 10 + 10 / 2)) * 100 + 1 / 2 = of_int (1000 * int c - 17500) + 1 / 2"
    by simp
  have fl: "\<And>z::int. \<lfloor>of_int z + (1 / 2 :: real)\<rfloor> = z"
    by linarith
  show ?thesis
    unfolding newCell_def Math_round_def latStep_def lonStep_def Let_def a b fl
    by simp
qed

lemma colLoop_eq:
  "c \<le> gridCols \<Longrightarrow>
   colLoop r c i cells = (i + (gridCols - c), cells @ map (\<lambda>k. newCell (i + k - c) r k) [c..<gridCols])"
proof (induction r c i cells rule: colLoop.induct)
  case (1 r c i cells)
  show ?case
  proof (cases "c < gridCols")
    case True
    have m: "map (\<lambda>k. newCell (Suc i + k - Suc c) r k) [Suc c..<gridCols]
           = map (\<lambda>k. newCell (i + k - c) r k) [Suc c..<gridCols]"
      by simp
    from True have "colLoop r c i cells = colLoop r (Suc c) (Suc i) (cells @ [newCell i r c])"
      by (subst colLoop.simps) simp
    also have "\<dots> = (Suc i + (gridCols - Suc c),
        (cells @ [newCell i r c]) @ map (\<lambda>k. newCell (Suc i + k - Suc c) r k) [Suc c..<gridCols])"
      using True by (intro "1.IH") auto
    also have "\<dots> = (i + (gridCols - c), cells @ map (\<lambda>k. newCell (i + k - c) r k) [c..<gridCols])"
      using True unfolding m by (simp add: upt_conv_Cons)
    finally show ?thesis .
  next
    case False
    with "1.prems" have "c = gridCols" by simp
    then show ?thesis by (subst colLoop.simps) simp
  qed
qed

lemma colLoop_row: "colLoop r 0 i cells = (i + gridCols, cells @ rowCells i r)"
  using colLoop_eq [of 0 r i cells] by (simp add: rowCells_def)

lemma rowLoop_eq:
  "r \<le> gridRows \<Longrightarrow>
   rowLoop r i cells =
     (i + (gridRows - r) * gridCols,
      cells @ concat (map (\<lambda>q. rowCells (i + (q - r) * gridCols) q) [r..<gridRows]))"
proof (induction r i cells rule: rowLoop.induct)
  case (1 r i cells)
  show ?case
  proof (cases "r < gridRows")
    case True
    have m: "map (\<lambda>q. rowCells (i + gridCols + (q - Suc r) * gridCols) q) [Suc r..<gridRows]
           = map (\<lambda>q. rowCells (i + (q - r) * gridCols) q) [Suc r..<gridRows]"
    proof (rule map_cong [OF refl])
      fix q assume "q \<in> set [Suc r..<gridRows]"
      then have "q - r = Suc (q - Suc r)" by auto
      then have "(q - r) * gridCols = gridCols + (q - Suc r) * gridCols" by simp
      then show "rowCells (i + gridCols + (q - Suc r) * gridCols) q = rowCells (i + (q - r) * gridCols) q"
        by (simp only: add.assoc)
    qed
    from True have "gridRows - r = Suc (gridRows - Suc r)" by simp
    then have s: "(gridRows - r) * gridCols = gridCols + (gridRows - Suc r) * gridCols" by simp
    have u: "[r..<gridRows] = r # [Suc r..<gridRows]"
      using True by (rule upt_conv_Cons)
    have step: "rowLoop r i cells = rowLoop (Suc r) (i + gridCols) (cells @ rowCells i r)"
      by (subst rowLoop.simps) (simp only: True if_True colLoop_row prod.case)
    have ih: "rowLoop (Suc r) (i + gridCols) (cells @ rowCells i r) =
        (i + gridCols + (gridRows - Suc r) * gridCols,
        (cells @ rowCells i r) @
          concat (map (\<lambda>q. rowCells (i + gridCols + (q - Suc r) * gridCols) q) [Suc r..<gridRows]))"
    proof (rule "1.IH" [OF True])
      show "(i + gridCols, cells @ rowCells i r) = colLoop r 0 i cells"
        by (simp only: colLoop_row)
      show "Suc r \<le> gridRows" using True by simp
    qed
    have fin: "(i + gridCols + (gridRows - Suc r) * gridCols,
        (cells @ rowCells i r) @
          concat (map (\<lambda>q. rowCells (i + gridCols + (q - Suc r) * gridCols) q) [Suc r..<gridRows]))
      = (i + (gridRows - r) * gridCols,
        cells @ concat (map (\<lambda>q. rowCells (i + (q - r) * gridCols) q) [r..<gridRows]))"
      unfolding m u s by (simp only: add.assoc list.map concat.simps append_assoc diff_self_eq_0 mult_0 add_0_right)
    show ?thesis unfolding step ih fin ..
  next
    case False
    with "1.prems" have e: "r = gridRows" by simp
    show ?thesis by (subst rowLoop.simps) (simp add: e)
  qed
qed

lemma concat_rows:
  "0 < n \<Longrightarrow> concat (map (\<lambda>q. map (f q) [0..<n]) [0..<m]) = map (\<lambda>k. f (k div n) (k mod n)) [0..<m * n]"
proof (induction m)
  case 0
  then show ?case by simp
next
  case (Suc m)
  have e: "Suc m * n = m * n + n" by simp
  have u: "[0..<m * n + n] = [0..<m * n] @ [m * n..<m * n + n]"
    by (rule upt_add_eq_append) simp
  have blk: "map (\<lambda>k. f (k div n) (k mod n)) [m * n..<m * n + n] = map (f m) [0..<n]"
  proof (rule nth_equalityI)
    show "length (map (\<lambda>k. f (k div n) (k mod n)) [m * n..<m * n + n]) = length (map (f m) [0..<n])"
      by simp
  next
    fix j assume "j < length (map (\<lambda>k. f (k div n) (k mod n)) [m * n..<m * n + n])"
    then have j: "j < n" by simp
    then show "map (\<lambda>k. f (k div n) (k mod n)) [m * n..<m * n + n] ! j = map (f m) [0..<n] ! j"
      by simp
  qed
  have "concat (map (\<lambda>q. map (f q) [0..<n]) [0..<Suc m])
      = concat (map (\<lambda>q. map (f q) [0..<n]) [0..<m]) @ map (f m) [0..<n]"
    by simp
  also have "\<dots> = map (\<lambda>k. f (k div n) (k mod n)) [0..<m * n] @ map (\<lambda>k. f (k div n) (k mod n)) [m * n..<m * n + n]"
    unfolding blk using Suc by simp
  also have "\<dots> = map (\<lambda>k. f (k div n) (k mod n)) [0..<Suc m * n]"
    unfolding e u by (simp only: map_append)
  finally show ?case .
qed

lemma generateGrid_rows:
  "generateGrid = map (\<lambda>k. newCell (Suc k) (k div gridCols) (k mod gridCols)) [0..<gridRows * gridCols]"
proof -
  have "generateGrid = concat (map (\<lambda>q. rowCells (1 + q * gridCols) q) [0..<gridRows])"
    unfolding generateGrid_def using rowLoop_eq [of 0 1 "[]"] by simp
  also have "\<dots> = concat (map (\<lambda>q. map (\<lambda>k. newCell (1 + q * gridCols + k) q k) [0..<gridCols]) [0..<gridRows])"
    by (simp add: rowCells_def)
  also have "\<dots> = map (\<lambda>k. newCell (1 + (k div gridCols) * gridCols + k mod gridCols) (k div gridCols) (k mod gridCols))
       [0..<gridRows * gridCols]"
    by (rule concat_rows) (simp add: gridCols_def)
  also have "\<dots> = map (\<lambda>k. newCell (Suc k) (k div gridCols) (k mod gridCols)) [0..<gridRows * gridCols]"
    by (simp add: div_mult_mod_eq add.assoc)
  finally show ?thesis .
qed

text \<open>
  Claim C1.  \<open>generateGrid\<close> is a constant: it returns exactly 648 cells, 18 rows of 36
  columns in row-major order.  The cell at position \<open>k\<close> (from 0) has id \<open>k + 1\<close>, row
  \<open>k div 36\<close>, column \<open>k mod 36\<close>, latitude centre \<open>85 - 10 * row\<close> and longitude centre
  \<open>- 175 + 10 * col\<close> (rounding to two decimals leaves these values as they are), so the
  ids are \<open>1, ..., 648\<close>, unique and contiguous.
\<close>

theorem generateGrid_cells:
  "generateGrid =
     map (\<lambda>k. \<lparr> cellId = k + 1, lat = 85 - 10 * real (k div 36), lon = - 175 + 10 * real (k mod 36),
               row = k div 36, col = k mod 36 \<rparr>) [0..<648]
   \<and> length generateGrid = 648
   \<and> map cellId generateGrid = [1..<649]
   \<and> distinct (map cellId generateGrid)"
proof -
  have g: "generateGrid =
     map (\<lambda>k. \<lparr> cellId = k + 1, lat = 85 - 10 * real (k div 36), lon = - 175 + 10 * real (k mod 36),
               row = k div 36, col = k mod 36 \<rparr>) [0..<648]"
    unfolding generateGrid_rows newCell_eq gridRows_def gridCols_def by (simp del: upt_rec_numeral)
  have ids: "map cellId generateGrid = map Suc [0..<648]"
    unfolding g by (simp add: comp_def del: upt_rec_numeral)
  have ids': "map cellId generateGrid = [1..<649]"
    unfolding ids map_Suc_upt by (simp del: upt_rec_numeral)
  have d: "distinct (map cellId generateGrid)"
    unfolding ids' by (rule distinct_upt)
  have l: "length generateGrid = 648"
    unfolding g by (simp del: upt_rec_numeral)
  show ?thesis using g l ids' d by blast
qed

section \<open>Selection\<close>

text \<open>
  Claim C2.  In the grid-only component, from the initial state \<open>{null, null, Source}\<close>
  the first \<open>selectCell c1\<close> gives \<open>{c1, null, Destination}\<close> and emits nothing; the second
  \<open>selectCell c2\<close> leaves exactly one emitted event, with source \<open>c1\<close> and destination
  \<open>c2\<close>, and the state reset to \<open>{null, null, Source}\<close>.
\<close>

theorem GridMap_two_clicks:
  "GridMap_selectCell c1 GridMap_init =
     \<lparr> selectedCoordinates = \<lparr> source = Some c1, destination = None \<rparr>,
       selectionMode = Destination, coordinatesSelected = [] \<rparr>
   \<and> GridMap_selectCell c2 (GridMap_selectCell c1 GridMap_init) =
     \<lparr> selectedCoordinates = \<lparr> source = None, destination = None \<rparr>,
       selectionMode = Source,
       coordinatesSelected = [\<lparr> source = Some c1, destination = Some c2 \<rparr>] \<rparr>"
  by (simp add: GridMap_selectCell_def GridMap_init_def noSelection_def Let_def)

lemma Map_selectCell_mode: "selectionMode (Map_selectCell c s) = Destination"
  by (cases "selectionMode s") (simp_all add: Map_selectCell_def Let_def)

lemma Map_selectCell_selected: "selectedCoordinates (Map_selectCell c s) \<noteq> noSelection"
  by (cases "selectionMode s") (simp_all add: Map_selectCell_def Let_def noSelection_def)

lemma Map_clicks_last:
  "cs \<noteq> [] \<Longrightarrow> \<exists>s'. Map_clicks cs s = Map_selectCell (last cs) s'"
proof (induction cs arbitrary: s)
  case Nil
  then show ?case by simp
next
  case (Cons c cs)
  show ?case
  proof (cases cs)
    case Nil
    then show ?thesis by auto
  next
    case (Cons d ds)
    then show ?thesis using Cons.IH [of "Map_selectCell c s"] by simp
  qed
qed

text \<open>
  Claim C3.  In the map-embedded component a click in \<open>Destination\<close> mode sets the
  destination, keeps the source, emits the pair and sets \<open>showingRoute\<close>; the mode stays
  \<open>Destination\<close>.  After any non-empty run of clicks the mode is \<open>Destination\<close> and the
  selection is not \<open>{null, null}\<close>, so no click brings the state back to
  \<open>{null, null, Source}\<close>; \<open>resetSelection\<close> does.
\<close>

theorem Map_selection_retained:
  "(selectionMode s = Destination \<longrightarrow>
      Map_selectCell c s =
        s\<lparr> selectedCoordinates := \<lparr> source = source (selectedCoordinates s), destination = Some c \<rparr>,
           coordinatesSelected := coordinatesSelected s
              @ [\<lparr> source = source (selectedCoordinates s), destination = Some c \<rparr>],
           showingRoute := True \<rparr>)
   \<and> (cs \<noteq> [] \<longrightarrow>
        selectionMode (Map_clicks cs s) = Destination
      \<and> selectedCoordinates (Map_clicks cs s) \<noteq> \<lparr> source = None, destination = None \<rparr>)
   \<and> selectedCoordinates (Map_resetSelection s) = \<lparr> source = None, destination = None \<rparr>
   \<and> selectionMode (Map_resetSelection s) = Source
   \<and> showingRoute (Map_resetSelection s) = False"
proof -
  have clicks: "cs \<noteq> [] \<longrightarrow>
        selectionMode (Map_clicks cs s) = Destination
      \<and> selectedCoordinates (Map_clicks cs s) \<noteq> \<lparr> source = None, destination = None \<rparr>"
  proof
    assume "cs \<noteq> []"
    then obtain s' where "Map_clicks cs s = Map_selectCell (last cs) s'"
      using Map_clicks_last by blast
    then show "selectionMode (Map_clicks cs s) = Destination
      \<and> selectedCoordinates (Map_clicks cs s) \<noteq> \<lparr> source = None, destination = None \<rparr>"
      using Map_selectCell_mode [of "last cs" s'] Map_selectCell_selected [of "last cs" s']
      by (simp add: noSelection_def)
  qed
  have click: "selectionMode s = Destination \<longrightarrow>
      Map_selectCell c s =
        s\<lparr> selectedCoordinates := \<lparr> source = source (selectedCoordinates s), destination = Some c \<rparr>,
           coordinatesSelected := coordinatesSelected s
              @ [\<lparr> source = source (selectedCoordinates s), destination = Some c \<rparr>],
           showingRoute := True \<rparr>"
    by (simp add: Map_selectCell_def Let_def)
  have reset: "selectedCoordinates (Map_resetSelection s) = \<lparr> source = None, destination = None \<rparr>
   \<and> selectionMode (Map_resetSelection s) = Source
   \<and> showingRoute (Map_resetSelection s) = False"
    by (simp add: Map_resetSelection_def)
  show ?thesis using click clicks reset by blast
qed

theorem Map_selection_retained_witness:
  "Map_selectCell (newCell 648 17 35) (Map_selectCell (newCell 1 0 0) Map_init) =
     \<lparr> selectedCoordinates = \<lparr> source = Some (newCell 1 0 0), destination = Some (newCell 648 17 35) \<rparr>,
       selectionMode = Destination,
       coordinatesSelected = [\<lparr> source = Some (newCell 1 0 0), destination = Some (newCell 648 17 35) \<rparr>],
       showingRoute = True \<rparr>
   \<and> selectionMode (Map_clicks [newCell 1 0 0, newCell 648 17 35, newCell 2 0 1] Map_init) = Destination
   \<and> selectedCoordinates (Map_clicks [newCell 1 0 0, newCell 648 17 35, newCell 2 0 1] Map_init)
        \<noteq> \<lparr> source = None, destination = None \<rparr>"
  using Map_selection_retained [of "Map_selectCell (newCell 1 0 0) Map_init" "newCell 648 17 35"
      "[newCell 1 0 0, newCell 648 17 35, newCell 2 0 1]"]
    Map_selection_retained [of Map_init "newCell 648 17 35" "[newCell 1 0 0, newCell 648 17 35, newCell 2 0 1]"]
  by (simp add: Map_selectCell_def Map_init_def noSelection_def Let_def)

section \<open>The on-route test\<close>

text \<open>
  Claim C9.  A cell is flagged on-route exactly when both endpoints are set and the cell's
  latitude and longitude each lie in the closed interval spanned by the two endpoints'
  latitudes and longitudes; with an endpoint unset no cell is on-route.
\<close>

theorem isCellOnRoute_iff:
  "isCellOnRoute cell src dst \<longleftrightarrow>
     (\<exists>s d. src = Some s \<and> dst = Some d
        \<and> min (lat s) (lat d) \<le> lat cell \<and> lat cell \<le> max (lat s) (lat d)
        \<and> min (lon s) (lon d) \<le> lon cell \<and> lon cell \<le> max (lon s) (lon d))"
  by (simp add: isCellOnRoute_def Let_def split: option.split)

text \<open>
  The test is a bounding box: with the two corner cells of the grid selected, the opposite
  corner of the first row is on-route as well.
\<close>

lemma isCellOnRoute_corner:
  "isCellOnRoute (newCell 36 0 35) (Some (newCell 1 0 0)) (Some (newCell 648 17 35))"
  by (simp add: isCellOnRoute_def newCell_eq)

section \<open>Wind-speed colours\<close>

lemma bucketIndex_wind:
  "bucketIndex windSpeedScale (getWindSpeedColor x) =
     (if x < 2 then 0 else if x < 5 then 1 else if x < 10 then 2 else if x < 15 then 3
      else if x < 20 then 4 else if x < 25 then 5 else 6)"
  by (simp add: windSpeedScale_def getWindSpeedColor_def)

text \<open>
  Claim C6.  \<open>getWindSpeedColor\<close> is a step function with boundaries at 2, 5, 10, 15, 20
  and 25: it is constant on each interval between them, every boundary value takes the
  colour of the bucket above it, 1 is in the deep-blue bucket and 30 in the red one, and
  the bucket's place in the scale from calm to storm never decreases when the speed grows.
\<close>

theorem getWindSpeedColor_steps:
  "getWindSpeedColor 1 = ''#0066CC'' \<and> getWindSpeedColor 30 = ''#FF0000''
   \<and> getWindSpeedColor 2 = ''#00CCFF'' \<and> getWindSpeedColor 5 = ''#00FF00''
   \<and> getWindSpeedColor 10 = ''#FFFF00'' \<and> getWindSpeedColor 15 = ''#FF8800''
   \<and> getWindSpeedColor 20 = ''#FF4400'' \<and> getWindSpeedColor 25 = ''#FF0000''
   \<and> (x < 2 \<longrightarrow> getWindSpeedColor x = ''#0066CC'')
   \<and> (2 \<le> x \<and> x < 5 \<longrightarrow> getWindSpeedColor x = ''#00CCFF'')
   \<and> (5 \<le> x \<and> x < 10 \<longrightarrow> getWindSpeedColor x = ''#00FF00'')
   \<and> (10 \<le> x \<and> x < 15 \<longrightarrow> getWindSpeedColor x = ''#FFFF00'')
   \<and> (15 \<le> x \<and> x < 20 \<longrightarrow> getWindSpeedColor x = ''#FF8800'')
   \<and> (20 \<le> x \<and> x < 25 \<longrightarrow> getWindSpeedColor x = ''#FF4400'')
   \<and> (25 \<le> x \<longrightarrow> getWindSpeedColor x = ''#FF0000'')
   \<and> (x \<le> y \<longrightarrow>
        bucketIndex windSpeedScale (getWindSpeedColor x) \<le> bucketIndex windSpeedScale (getWindSpeedColor y))"
proof -
  have mono: "x \<le> y \<longrightarrow>
        bucketIndex windSpeedScale (getWindSpeedColor x) \<le> bucketIndex windSpeedScale (getWindSpeedColor y)"
    unfolding bucketIndex_wind by simp
  have vals: "getWindSpeedColor 1 = ''#0066CC'' \<and> getWindSpeedColor 30 = ''#FF0000''
   \<and> getWindSpeedColor 2 = ''#00CCFF'' \<and> getWindSpeedColor 5 = ''#00FF00''
   \<and> getWindSpeedColor 10 = ''#FFFF00'' \<and> getWindSpeedColor 15 = ''#FF8800''
   \<and> getWindSpeedColor 20 = ''#FF4400'' \<and> getWindSpeedColor 25 = ''#FF0000''"
    by (simp add: getWindSpeedColor_def)
  have steps: "(x < 2 \<longrightarrow> getWindSpeedColor x = ''#0066CC'')
   \<and> (2 \<le> x \<and> x < 5 \<longrightarrow> getWindSpeedColor x = ''#00CCFF'')
   \<and> (5 \<le> x \<and> x < 10 \<longrightarrow> getWindSpeedColor x = ''#00FF00'')
   \<and> (10 \<le> x \<and> x < 15 \<longrightarrow> getWindSpeedColor x = ''#FFFF00'')
   \<and> (15 \<le> x \<and> x < 20 \<longrightarrow> getWindSpeedColor x = ''#FF8800'')
   \<and> (20 \<le> x \<and> x < 25 \<longrightarrow> getWindSpeedColor x = ''#FF4400'')
   \<and> (25 \<le> x \<longrightarrow> getWindSpeedColor x = ''#FF0000'')"
    by (simp add: getWindSpeedColor_def)
  show ?thesis using mono vals steps by blast
qed

theorem getWindSpeedColor_steps_witness:
  "getWindSpeedColor 3 = ''#00CCFF'' \<and> getWindSpeedColor 7 = ''#00FF00''
   \<and> getWindSpeedColor 12 = ''#FFFF00'' \<and> getWindSpeedColor 17 = ''#FF8800''
   \<and> getWindSpeedColor 22 = ''#FF4400'' \<and> getWindSpeedColor 26 = ''#FF0000''
   \<and> getWindSpeedColor 0 = ''#0066CC''
   \<and> bucketIndex windSpeedScale (getWindSpeedColor 3) \<le> bucketIndex windSpeedScale (getWindSpeedColor 12)"
  using getWindSpeedColor_steps [of 3 12] getWindSpeedColor_steps [of 7 7]
    getWindSpeedColor_steps [of 12 12] getWindSpeedColor_steps [of 17 17]
    getWindSpeedColor_steps [of 22 22] getWindSpeedColor_steps [of 26 26]
    getWindSpeedColor_steps [of 0 0]
  by (simp add: windSpeedScale_def)

section \<open>The simulator\<close>

lemma Math_round_of_int: "Math_round (of_int z) = of_int z"
proof -
  have "\<lfloor>of_int z + (1 / 2 :: real)\<rfloor> = z" by linarith
  then show ?thesis by (simp add: Math_round_def)
qed

text \<open>
  Claim C5.  When the draws of the temperature, wind-speed, humidity and pressure noise
  are \<open>1/2\<close>, so that each term \<open>(Math.random() - 0.5) * a\<close> is 0, the simulated sample
  at latitude 0 and longitude 0 has temperature 20, wind speed 3, pressure 101325 and
  relative humidity 60.
\<close>

theorem simulated_sample_at_origin:
  assumes "rnd 0 = 1 / 2" and "rnd 1 = 1 / 2" and "rnd 3 = 1 / 2" and "rnd 4 = 1 / 2"
  shows "temp (generateSimulatedWeatherData rnd 0 0) = 20
       \<and> speed (wind (generateSimulatedWeatherData rnd 0 0)) = 3
       \<and> pressure (generateSimulatedWeatherData rnd 0 0) = 101325
       \<and> rh (generateSimulatedWeatherData rnd 0 0) = 60"
proof -
  have r200: "Math_round 200 = 200" using Math_round_of_int [of 200] by simp
  have r60: "Math_round 60 = 60" using Math_round_of_int [of 60] by simp
  have rp: "Math_round 101325 = 101325" using Math_round_of_int [of 101325] by simp
  show ?thesis
    unfolding generateSimulatedWeatherData_def Let_def assms
    by (simp add: r200 r60 rp)
qed

theorem simulated_sample_at_origin_witness:
  "temp (generateSimulatedWeatherData zeroNoise 0 0) = 20
       \<and> speed (wind (generateSimulatedWeatherData zeroNoise 0 0)) = 3
       \<and> pressure (generateSimulatedWeatherData zeroNoise 0 0) = 101325
       \<and> rh (generateSimulatedWeatherData zeroNoise 0 0) = 60"
  using simulated_sample_at_origin [of zeroNoise] by (simp add: zeroNoise_def)

section \<open>Parsing the API response\<close>

text \<open>
  Claim C10.  \<open>parseWindyResponse\<close> substitutes a fixed default for a missing field: the
  wind components 0 and 0 (so the speed is 0), temperature 15, relative humidity 50,
  pressure 101325 and gust 0.  The result always carries a gust value.
\<close>

theorem parseWindyResponse_defaults:
  "(resp_wind response = None \<longrightarrow>
       u_comp (wind (parseWindyResponse response la lo)) = 0
     \<and> v_comp (wind (parseWindyResponse response la lo)) = 0
     \<and> speed (wind (parseWindyResponse response la lo)) = 0)
   \<and> (resp_temp response = None \<longrightarrow> temp (parseWindyResponse response la lo) = 15)
   \<and> (resp_rh response = None \<longrightarrow> rh (parseWindyResponse response la lo) = 50)
   \<and> (resp_pressure response = None \<longrightarrow> pressure (parseWindyResponse response la lo) = 101325)
   \<and> (resp_gust response = None \<longrightarrow> gust (parseWindyResponse response la lo) = Some 0)"
  by (simp add: parseWindyResponse_def Let_def js_opt_index_def js_num_or_def js_arr_or_def js_index_def)

theorem parseWindyResponse_defaults_witness:
  "u_comp (wind (parseWindyResponse emptyResponse 0 0)) = 0
     \<and> v_comp (wind (parseWindyResponse emptyResponse 0 0)) = 0
     \<and> speed (wind (parseWindyResponse emptyResponse 0 0)) = 0
   \<and> temp (parseWindyResponse emptyResponse 0 0) = 15
   \<and> rh (parseWindyResponse emptyResponse 0 0) = 50
   \<and> pressure (parseWindyResponse emptyResponse 0 0) = 101325
   \<and> gust (parseWindyResponse emptyResponse 0 0) = Some 0"
  using parseWindyResponse_defaults [of emptyResponse 0 0] by (simp add: emptyResponse_def)

text \<open>
  Arrays that are too short take the defaults as well, and so does a value 0 where the
  default is not 0, since \<open>||\<close> treats 0 as missing.  With every field missing the
  direction is 180.
\<close>

lemma parseWindyResponse_zero_is_falsy:
  "temp (parseWindyResponse (emptyResponse\<lparr> resp_temp := Some [[0]] \<rparr>) la lo) = 15"
  by (simp add: parseWindyResponse_def Let_def js_opt_index_def js_num_or_def js_index_def)

lemma parseWindyResponse_short_arrays:
  "temp (parseWindyResponse (emptyResponse\<lparr> resp_temp := Some [] \<rparr>) la lo) = 15
   \<and> temp (parseWindyResponse (emptyResponse\<lparr> resp_temp := Some [[]] \<rparr>) la lo) = 15
   \<and> u_comp (wind (parseWindyResponse (emptyResponse\<lparr> resp_wind := Some [[]] \<rparr>) la lo)) = 0
   \<and> v_comp (wind (parseWindyResponse (emptyResponse\<lparr> resp_wind := Some [[3]] \<rparr>) la lo)) = 0"
  by (simp add: parseWindyResponse_def Let_def js_opt_index_def js_num_or_def js_arr_or_def js_index_def)

lemma parseWindyResponse_empty_direction:
  "direction (wind (parseWindyResponse emptyResponse la lo)) = 180"
  by (simp add: parseWindyResponse_def Let_def js_opt_index_def js_num_or_def js_arr_or_def js_index_def
      emptyResponse_def Math_atan2_def js_rem_def)

section \<open>Fetching weather data\<close>

text \<open>
  Claim C4, as the code has it.  \<open>getWeatherData\<close> never hands its caller an observable
  that fails.  When the key is the placeholder the sample is the simulator's and nothing is
  logged.  With another key a failed request gives the simulator's sample and one logged
  warning, a successful request gives the parsed response, and a request that never
  completes leaves the observable pending.  So the call delivers a sample whenever the key
  is the placeholder or the request completes.
\<close>

theorem getWeatherData_always_emits:
  "fst (getWeatherData apiKey httpGet rnd la lo) \<noteq> Errors e'
   \<and> (apiKey = ''YOUR_WINDY_API_KEY'' \<longrightarrow>
        getWeatherData apiKey httpGet rnd la lo = (Emits (generateSimulatedWeatherData rnd la lo), []))
   \<and> (apiKey \<noteq> ''YOUR_WINDY_API_KEY'' \<and> httpGet = Errors e \<longrightarrow>
        getWeatherData apiKey httpGet rnd la lo =
          (Emits (generateSimulatedWeatherData rnd la lo),
           [Warn ''Failed to fetch from Windy API, using simulated data:'' e]))
   \<and> (apiKey \<noteq> ''YOUR_WINDY_API_KEY'' \<and> httpGet = Emits response \<longrightarrow>
        getWeatherData apiKey httpGet rnd la lo = (Emits (parseWindyResponse response la lo), []))
   \<and> (apiKey \<noteq> ''YOUR_WINDY_API_KEY'' \<and> httpGet = Pending \<longrightarrow>
        getWeatherData apiKey httpGet rnd la lo = (Pending, []))
   \<and> (apiKey = ''YOUR_WINDY_API_KEY'' \<or> httpGet \<noteq> Pending \<longrightarrow>
        (\<exists>d. fst (getWeatherData apiKey httpGet rnd la lo) = Emits d))"
  by (cases httpGet) (simp_all add: getWeatherData_def rx_of_def rx_map_def rx_catchError_def)

theorem getWeatherData_always_emits_witness:
  "getWeatherData ''YOUR_WINDY_API_KEY'' (Errors (HttpErrorResponse 503 ''Service Unavailable'')) midDraws 0 0
     = (Emits (generateSimulatedWeatherData midDraws 0 0), [])
   \<and> getWeatherData ''key'' (Errors (HttpErrorResponse 503 ''Service Unavailable'')) midDraws 0 0
     = (Emits (generateSimulatedWeatherData midDraws 0 0),
        [Warn ''Failed to fetch from Windy API, using simulated data:'' (HttpErrorResponse 503 ''Service Unavailable'')])
   \<and> getWeatherData ''key'' (Emits emptyResponse) midDraws 0 0
     = (Emits (parseWindyResponse emptyResponse 0 0), [])
   \<and> getWeatherData ''key'' Pending midDraws 0 0 = (Pending, [])
   \<and> (\<exists>d. fst (getWeatherData ''YOUR_WINDY_API_KEY'' Pending midDraws 0 0) = Emits d)
   \<and> (\<exists>d. fst (getWeatherData ''key'' (Errors (HttpErrorResponse 503 ''Service Unavailable'')) midDraws 0 0) = Emits d)"
  using getWeatherData_always_emits [of "''YOUR_WINDY_API_KEY''" "Errors (HttpErrorResponse 503 ''Service Unavailable'')" midDraws 0 0]
    getWeatherData_always_emits [of "''key''" "Errors (HttpErrorResponse 503 ''Service Unavailable'')" midDraws 0 0
       _ "HttpErrorResponse 503 ''Service Unavailable''"]
    getWeatherData_always_emits [of "''key''" "Emits emptyResponse" midDraws 0 0 _ _ emptyResponse]
    getWeatherData_always_emits [of "''key''" Pending midDraws 0 0]
    getWeatherData_always_emits [of "''YOUR_WINDY_API_KEY''" Pending midDraws 0 0]
  by simp

text \<open>
  With the placeholder key nothing is logged, also when the request would have failed; and
  with another key a request that never completes gives the caller no sample.
\<close>

theorem getWeatherData_no_warning_without_key:
  "snd (getWeatherData ''YOUR_WINDY_API_KEY'' (Errors (HttpErrorResponse 503 ''Service Unavailable'')) midDraws 0 0) = []
   \<and> fst (getWeatherData ''key'' Pending midDraws 0 0) = Pending"
  by (simp add: getWeatherData_def rx_of_def rx_map_def rx_catchError_def)

section \<open>The particle pool\<close>

lemma unitDraws_midDraws: "unitDraws midDraws"
  using isDouble_half by (simp add: unitDraws_def midDraws_def)

lemma unitDraws_topDraws: "unitDraws topDraws"
  using isDouble_top by (simp add: unitDraws_def topDraws_def)

lemma updateParticle_fields:
  "age (fst (updateParticle w h rnd k p)) = (if real (age p + 1) > life p then 0 else age p + 1)
   \<and> life (fst (updateParticle w h rnd k p)) =
        (if real (age p + 1) > life p then fl (fl (rnd (k + 4) * 150) + 100) else life p)
   \<and> brightness (fst (updateParticle w h rnd k p)) =
        (if real (age p + 1) > life p then fl (fl (rnd (k + 5) * 0.5) + 0.5) else brightness p)"
  by (simp add: updateParticle_def Let_def)

lemma unitDraws_fresh:
  assumes "unitDraws rnd"
  shows "100 \<le> fl (fl (rnd i * 150) + 100) \<and> fl (fl (rnd i * 150) + 100) < 250
       \<and> 1 / 2 \<le> fl (fl (rnd j * 0.5) + 0.5) \<and> fl (fl (rnd j * 0.5) + 0.5) \<le> 1"
proof -
  from assms have i: "0 \<le> rnd i" "rnd i < 1" "isDouble (rnd i)" and j: "0 \<le> rnd j" "rnd j < 1"
    by (simp_all add: unitDraws_def)
  have "rnd i \<le> 1 - 1 / 2 ^ 53"
    using i by (intro isDouble_below_one)
  then have "100 \<le> fl (fl (rnd i * 150) + 100) \<and> fl (fl (rnd i * 150) + 100) < 250"
    using i(1) by (intro fl_life_bounds)
  moreover have "1 / 2 \<le> fl (fl (rnd j * 0.5) + 0.5) \<and> fl (fl (rnd j * 0.5) + 0.5) \<le> 1"
    using j by (intro fl_half_sum_bounds)
  ultimately show ?thesis by blast
qed

lemma updateParticle_ok:
  assumes "unitDraws rnd"
  shows "particleOk (fst (updateParticle w h rnd k p))"
proof -
  have "0 \<le> fl (fl (rnd (k + 4) * 150) + 100)"
    using unitDraws_fresh [OF assms, of "k + 4" "k + 5"] by linarith
  then show ?thesis
    by (simp add: particleOk_def updateParticle_fields)
qed

lemma updateParticle_fresh:
  assumes "unitDraws rnd" and "freshLife p"
  shows "freshLife (fst (updateParticle w h rnd k p))"
  using unitDraws_fresh [OF assms(1), of "k + 4" "k + 5"] assms(2)
  by (simp add: freshLife_def updateParticle_fields)

lemma updateParticle_respawn:
  assumes "unitDraws rnd" and "real (age p + 1) > life p"
  shows "age (fst (updateParticle w h rnd k p)) = 0 \<and> freshLife (fst (updateParticle w h rnd k p))"
  using unitDraws_fresh [OF assms(1), of "k + 4" "k + 5"] assms(2)
  by (simp add: freshLife_def updateParticle_fields)

lemma particleLoop_length: "length (fst (particleLoop w h rnd k ps)) = length ps"
proof (induction ps arbitrary: k)
  case Nil
  then show ?case by simp
next
  case (Cons p ps)
  obtain p' k' where u: "updateParticle w h rnd k p = (p', k')" by (cases "updateParticle w h rnd k p")
  obtain ps' k'' where l: "particleLoop w h rnd k' ps = (ps', k'')" by (cases "particleLoop w h rnd k' ps")
  have "length ps' = length ps" using Cons.IH [of k'] l by simp
  then show ?case by (simp add: u l)
qed

lemma particleLoop_nth:
  "i < length ps \<Longrightarrow>
   \<exists>k'. fst (particleLoop w h rnd k ps) ! i = fst (updateParticle w h rnd k' (ps ! i))"
proof (induction ps arbitrary: k i)
  case Nil
  then show ?case by simp
next
  case (Cons p ps)
  obtain p' k' where u: "updateParticle w h rnd k p = (p', k')" by (cases "updateParticle w h rnd k p")
  obtain ps' k'' where l: "particleLoop w h rnd k' ps = (ps', k'')" by (cases "particleLoop w h rnd k' ps")
  show ?case
  proof (cases i)
    case 0
    have "fst (particleLoop w h rnd k (p # ps)) ! 0 = fst (updateParticle w h rnd k ((p # ps) ! 0))"
      by (simp add: u l)
    then show ?thesis using 0 by blast
  next
    case (Suc n)
    with Cons.prems have "n < length ps" by simp
    then obtain q where "fst (particleLoop w h rnd k' ps) ! n = fst (updateParticle w h rnd q (ps ! n))"
      using Cons.IH [of n k'] by blast
    then have "fst (particleLoop w h rnd k (p # ps)) ! Suc n = fst (updateParticle w h rnd q ((p # ps) ! Suc n))"
      by (simp add: u l)
    then show ?thesis using Suc by blast
  qed
qed

lemma particleLoop_ok:
  "unitDraws rnd \<Longrightarrow> list_all particleOk (fst (particleLoop w h rnd k ps))"
proof (induction ps arbitrary: k)
  case Nil
  then show ?case by simp
next
  case (Cons p ps)
  obtain p' k' where u: "updateParticle w h rnd k p = (p', k')" by (cases "updateParticle w h rnd k p")
  obtain ps' k'' where l: "particleLoop w h rnd k' ps = (ps', k'')" by (cases "particleLoop w h rnd k' ps")
  have "particleOk p'" using updateParticle_ok [OF Cons.prems, of w h k p] u by simp
  moreover have "list_all particleOk ps'" using Cons.IH [OF Cons.prems, of k'] l by simp
  ultimately show ?case by (simp add: u l)
qed

lemma particleLoop_fresh:
  "unitDraws rnd \<Longrightarrow> list_all freshLife ps \<Longrightarrow> list_all freshLife (fst (particleLoop w h rnd k ps))"
proof (induction ps arbitrary: k)
  case Nil
  then show ?case by simp
next
  case (Cons p ps)
  obtain p' k' where u: "updateParticle w h rnd k p = (p', k')" by (cases "updateParticle w h rnd k p")
  obtain ps' k'' where l: "particleLoop w h rnd k' ps = (ps', k'')" by (cases "particleLoop w h rnd k' ps")
  from Cons.prems have fp: "freshLife p" and fps: "list_all freshLife ps" by simp_all
  have "freshLife p'" using updateParticle_fresh [OF Cons.prems(1) fp, of w h k] u by simp
  moreover have "list_all freshLife ps'" using Cons.IH [OF Cons.prems(1) fps, of k'] l by simp
  ultimately show ?case by (simp add: u l)
qed

lemma animateTicks_length: "length (animateTicks w h rnds ps) = length ps"
  by (induction rnds arbitrary: ps) (simp_all add: particleLoop_length)

lemma animateTicks_ok:
  "list_all unitDraws rnds \<Longrightarrow> list_all particleOk ps \<Longrightarrow> list_all particleOk (animateTicks w h rnds ps)"
  by (induction rnds arbitrary: ps) (simp_all add: particleLoop_ok)

lemma animateTicks_ok_any:
  "rnds \<noteq> [] \<Longrightarrow> list_all unitDraws rnds \<Longrightarrow> list_all particleOk (animateTicks w h rnds ps)"
proof (cases rnds)
  case Nil
  assume "rnds \<noteq> []"
  with Nil show ?thesis by simp
next
  case (Cons rnd rest)
  assume "list_all unitDraws rnds"
  with Cons have a: "unitDraws rnd" and b: "list_all unitDraws rest" by simp_all
  have "list_all particleOk (animateTicks w h rest (fst (particleLoop w h rnd 0 ps)))"
    using b particleLoop_ok [OF a] by (rule animateTicks_ok)
  then show ?thesis using Cons by simp
qed

lemma animateTicks_fresh:
  "list_all unitDraws rnds \<Longrightarrow> list_all freshLife ps \<Longrightarrow> list_all freshLife (animateTicks w h rnds ps)"
  by (induction rnds arbitrary: ps) (simp_all add: particleLoop_fresh)

lemma seedLoop_eq:
  "i \<le> particleCount \<Longrightarrow>
   seedLoop weatherData rnd i ps = ps @ map (seedParticle weatherData rnd) [i..<particleCount]"
proof (induction weatherData rnd i ps rule: seedLoop.induct)
  case (1 weatherData rnd i ps)
  show ?case
  proof (cases "i < particleCount")
    case True
    have u: "[i..<particleCount] = i # [Suc i..<particleCount]"
      using True by (rule upt_conv_Cons)
    have step: "seedLoop weatherData rnd i ps = seedLoop weatherData rnd (Suc i) (ps @ [seedParticle weatherData rnd i])"
      by (subst seedLoop.simps) (simp only: True if_True)
    have ih: "seedLoop weatherData rnd (Suc i) (ps @ [seedParticle weatherData rnd i])
        = (ps @ [seedParticle weatherData rnd i]) @ map (seedParticle weatherData rnd) [Suc i..<particleCount]"
      using True by (intro "1.IH") simp_all
    show ?thesis unfolding step ih u by simp
  next
    case False
    with "1.prems" have e: "i = particleCount" by simp
    show ?thesis by (subst seedLoop.simps) (simp add: e)
  qed
qed

lemma seedParticle_ok: "unitDraws rnd \<Longrightarrow> particleOk (seedParticle weatherData rnd i) \<and> freshLife (seedParticle weatherData rnd i)"
  using unitDraws_fresh [of rnd "7 * i + 5" "7 * i + 6"]
  by (simp add: seedParticle_def Let_def particleOk_def freshLife_def)

lemma initializeParticleSystem_eq:
  "initializeParticleSystem m weatherData rnd =
     (if m then map (seedParticle weatherData rnd) [0..<particleCount] else [])"
  using seedLoop_eq [of 0 weatherData rnd "[]"] by (simp add: initializeParticleSystem_def)

lemma initializeParticleSystem_length:
  "length (initializeParticleSystem m weatherData rnd) = (if m then 2500 else 0)"
  unfolding initializeParticleSystem_eq by (simp add: particleCount_def del: upt_rec_numeral)

lemma initializeParticleSystem_ok:
  "unitDraws rnd \<Longrightarrow> list_all particleOk (initializeParticleSystem m weatherData rnd)"
  unfolding initializeParticleSystem_eq by (auto simp: seedParticle_ok list_all_iff)

lemma initializeParticleSystem_fresh:
  "unitDraws rnd \<Longrightarrow> list_all freshLife (initializeParticleSystem m weatherData rnd)"
  unfolding initializeParticleSystem_eq by (auto simp: seedParticle_ok list_all_iff)

text \<open>
  Claim C7, with the brightness interval closed at 1.  With every \<open>Math.random()\<close> value a
  double in \<open>[0, 1)\<close>, after any number of ticks every particle of the seeded pool has
  \<open>0 \<le> age \<le> life\<close>, a life in \<open>[100, 250)\<close> and a brightness in \<open>[0.5, 1]\<close>, and the pool
  keeps its 2500 particles.  A tick keeps the length of any pool and replaces each particle,
  in place, by the result of \<open>updateParticle\<close> on it; after at least one tick \<open>age \<le> life\<close>
  holds in any pool.  A particle whose age passes its life in a tick leaves the tick with
  age 0, a fresh life in \<open>[100, 250)\<close> and a fresh brightness in \<open>[0.5, 1]\<close>.
\<close>

theorem particle_respawn_invariant:
  assumes "unitDraws rnd0" and "list_all unitDraws rnds"
  shows "length (animateTicks w h rnds (initializeParticleSystem m weatherData rnd0)) = (if m then 2500 else 0)
       \<and> list_all particleOk (animateTicks w h rnds (initializeParticleSystem m weatherData rnd0))
       \<and> list_all freshLife (animateTicks w h rnds (initializeParticleSystem m weatherData rnd0))
       \<and> (list_all particleOk ps \<longrightarrow> list_all particleOk (animateTicks w h rnds ps))
       \<and> (rnds \<noteq> [] \<longrightarrow> list_all particleOk (animateTicks w h rnds ps))
       \<and> length (animateTicks w h rnds ps) = length ps
       \<and> length (fst (particleLoop w h rnd k ps)) = length ps
       \<and> (i < length ps \<longrightarrow>
            (\<exists>k'. fst (particleLoop w h rnd k ps) ! i = fst (updateParticle w h rnd k' (ps ! i))))
       \<and> (unitDraws rnd \<and> real (age p + 1) > life p \<longrightarrow>
            age (fst (updateParticle w h rnd k p)) = 0 \<and> freshLife (fst (updateParticle w h rnd k p)))
       \<and> (\<not> real (age p + 1) > life p \<longrightarrow>
            age (fst (updateParticle w h rnd k p)) = age p + 1
          \<and> life (fst (updateParticle w h rnd k p)) = life p
          \<and> brightness (fst (updateParticle w h rnd k p)) = brightness p)"
proof -
  have nth: "i < length ps \<longrightarrow>
            (\<exists>k'. fst (particleLoop w h rnd k ps) ! i = fst (updateParticle w h rnd k' (ps ! i)))"
    using particleLoop_nth by blast
  have keep: "\<not> real (age p + 1) > life p \<longrightarrow>
            age (fst (updateParticle w h rnd k p)) = age p + 1
          \<and> life (fst (updateParticle w h rnd k p)) = life p
          \<and> brightness (fst (updateParticle w h rnd k p)) = brightness p"
    by (simp add: updateParticle_fields)
  have any: "rnds \<noteq> [] \<longrightarrow> list_all particleOk (animateTicks w h rnds ps)"
    using animateTicks_ok_any [OF _ assms(2)] by blast
  show ?thesis
    using assms nth keep any
    by (simp add: animateTicks_length animateTicks_ok animateTicks_fresh initializeParticleSystem_length
        initializeParticleSystem_ok initializeParticleSystem_fresh updateParticle_respawn particleLoop_length)
qed

lemma particleOk_oldParticle: "particleOk oldParticle"
  by (simp add: particleOk_def oldParticle_def)

theorem particle_respawn_invariant_witness:
  "length (animateTicks 1000 600 [midDraws, midDraws]
      (initializeParticleSystem True (parseWindyResponse emptyResponse 0 0) midDraws)) = 2500
   \<and> list_all particleOk (animateTicks 1000 600 [midDraws, midDraws]
      (initializeParticleSystem True (parseWindyResponse emptyResponse 0 0) midDraws))
   \<and> list_all freshLife (animateTicks 1000 600 [midDraws, midDraws]
      (initializeParticleSystem True (parseWindyResponse emptyResponse 0 0) midDraws))
   \<and> list_all particleOk (animateTicks 1000 600 [midDraws, midDraws] [oldParticle])
   \<and> age (fst (updateParticle 1000 600 midDraws 0 oldParticle)) = 0
   \<and> freshLife (fst (updateParticle 1000 600 midDraws 0 oldParticle))
   \<and> (\<exists>k'. fst (particleLoop 1000 600 midDraws 0 [oldParticle]) ! 0
          = fst (updateParticle 1000 600 midDraws k' ([oldParticle] ! 0)))
   \<and> age (fst (updateParticle 1000 600 midDraws 0 (oldParticle\<lparr> age := 0 \<rparr>))) = 1"
proof -
  have d: "list_all unitDraws [midDraws, midDraws]"
    by (simp add: unitDraws_midDraws)
  have o: "real (age oldParticle + 1) > life oldParticle"
    by (simp add: oldParticle_def)
  have y: "\<not> real (age (oldParticle\<lparr> age := 0 \<rparr>) + 1) > life (oldParticle\<lparr> age := 0 \<rparr>)"
    by (simp add: oldParticle_def)
  show ?thesis
    using particle_respawn_invariant [OF unitDraws_midDraws d, of 1000 600 True
        "parseWindyResponse emptyResponse 0 0" "[oldParticle]" midDraws 0 0 oldParticle]
      particle_respawn_invariant [OF unitDraws_midDraws d, of 1000 600 True
        "parseWindyResponse emptyResponse 0 0" "[oldParticle]" midDraws 0 0 "oldParticle\<lparr> age := 0 \<rparr>"]
      particleOk_oldParticle unitDraws_midDraws o y
    by simp
qed

text \<open>
  At the largest double below 1 the sum \<open>Math.random() * 0.5 + 0.5\<close> is a tie between
  \<open>1 - 2^-53\<close> and 1 and rounds to 1: the brightness of a respawned particle, and of a
  seeded one, is then exactly 1.
\<close>

theorem respawn_brightness_reaches_one:
  "unitDraws topDraws
   \<and> real (age oldParticle + 1) > life oldParticle
   \<and> brightness (fst (updateParticle 1000 600 topDraws 0 oldParticle)) = 1
   \<and> brightness (seedParticle (parseWindyResponse emptyResponse 0 0) topDraws 0) = 1"
proof -
  have b: "brightness (fst (updateParticle 1000 600 topDraws 0 oldParticle)) = 1"
    using fl_top_brightness by (simp add: updateParticle_fields oldParticle_def topDraws_def)
  have s: "brightness (seedParticle (parseWindyResponse emptyResponse 0 0) topDraws 0) = 1"
    using fl_top_brightness by (simp add: seedParticle_def Let_def topDraws_def)
  show ?thesis using unitDraws_topDraws b s by (simp add: oldParticle_def)
qed

section \<open>Drawing a route\<close>

lemma drawSegment_noWaypoints:
  "noWaypoints routingData \<Longrightarrow> drawSegment n routingData segmentIndex layers = Inr layers"
  by (simp add: noWaypoints_def drawSegment_def split: option.splits)

lemma forEachSegment_noWaypoints:
  "list_all noWaypoints segments \<Longrightarrow> forEachSegment n segments segmentIndex layers = Inr layers"
  by (induction segments arbitrary: segmentIndex) (simp_all add: drawSegment_noWaypoints)

lemma getBounds_Nil: "getBounds [] = None"
  by (simp add: getBounds_def)

text \<open>
  Claim C8.  For a route that is missing, has no segment, or has only segments whose
  waypoints are missing or empty, \<open>displayRoute\<close> does not fail and draws nothing: no marker
  and no polyline is added and \<open>fitBounds\<close> is not called.  When the map and the route layer
  group exist its one effect is to clear the route layer group; otherwise it does nothing.
\<close>

theorem displayRoute_empty:
  assumes "emptyRoute routingDataArray"
  shows "displayRoute routingDataArray s =
           Inr (if hasMap s \<and> hasRouteLayerGroup s then s\<lparr> routeLayers := [] \<rparr> else s)"
proof (cases routingDataArray)
  case None
  then show ?thesis by (simp add: displayRoute_def)
next
  case (Some segments)
  with assms have "list_all noWaypoints segments" by (simp add: emptyRoute_def)
  then have "forEachSegment (length segments) segments 0 [] = Inr []"
    by (rule forEachSegment_noWaypoints)
  then show ?thesis using Some by (simp add: displayRoute_def getBounds_Nil Let_def)
qed

theorem displayRoute_empty_witness:
  "displayRoute (Some [emptySegment, missingSegment]) viewWithRoute = Inr (viewWithRoute\<lparr> routeLayers := [] \<rparr>)
   \<and> displayRoute None viewWithRoute = Inr (viewWithRoute\<lparr> routeLayers := [] \<rparr>)
   \<and> displayRoute (Some []) viewWithRoute = Inr (viewWithRoute\<lparr> routeLayers := [] \<rparr>)"
  using displayRoute_empty [of "Some [emptySegment, missingSegment]" viewWithRoute]
    displayRoute_empty [of None viewWithRoute] displayRoute_empty [of "Some []" viewWithRoute]
  by (simp add: emptyRoute_def noWaypoints_def emptySegment_def missingSegment_def viewWithRoute_def)

end
